theory Spec2Isabelle
  imports Main "HOL-Library.AList" "HOL-Library.Char_ord" "HOL-Library.List_Lexorder"
begin

section \<open>The metadata controller: data model\<close>

text \<open>
  The controller of \<^verbatim>\<open>pkg/util/kubernetes/apiserver\<close> watches Endpoints objects and
  keeps, per node, a bundle mapping pods to the services that target them.  The Go code
  mutates a process-wide cache and a work queue; here every function takes the state it
  reads and returns the state it leaves.  Locks, log lines, wall-clock time and the
  expiry of cache entries are not part of the model.
\<close>

subsection \<open>Kubernetes objects\<close>

text \<open>\<^verbatim>\<open>corev1.ObjectReference\<close>, \<^verbatim>\<open>corev1.EndpointAddress\<close>, \<^verbatim>\<open>corev1.EndpointSubset\<close> and
  \<^verbatim>\<open>corev1.Endpoints\<close>, with the fields the controller reads.  A Go pointer that may be
  nil is an option.\<close>

record ObjectReference =
  Kind :: string
  RefNamespace :: string
  RefName :: string

record EndpointAddress =
  TargetRef :: "ObjectReference option"
  NodeName :: "string option"

record EndpointSubset =
  Addresses :: "EndpointAddress list"

record Endpoints =
  ObjNamespace :: string
  ObjName :: string
  Subsets :: "EndpointSubset list"

text \<open>Go's \<^verbatim>\<open>error\<close>: the API server's not-found status, which \<^verbatim>\<open>errors.IsNotFound\<close>
  recognises, and every other error with its message.\<close>

datatype error = NotFound | Err string

definition IsNotFound :: "error option \<Rightarrow> bool" where
  "IsNotFound err = (err = Some NotFound)"

subsection \<open>The transient node-to-pods map of mapService\<close>

text \<open>\<^verbatim>\<open>nodeToPods\<close> is a Go \<^verbatim>\<open>map[string]map[string]string\<close> that the second loop of
  \<^verbatim>\<open>mapService\<close> ranges over, so it is an association list with one pair per key:
  \<open>map_of\<close> reads it and \<open>AList.update\<close> writes it (replacing the value of a key
  that is present, appending the pair otherwise).\<close>

type_synonym podsByNamespace = "(string \<times> string) list"
type_synonym nodeToPods = "(string \<times> podsByNamespace) list"

text \<open>The body of the inner loop of \<^verbatim>\<open>mapService\<close> (lines 179-201), one address at a time:
  each \<^verbatim>\<open>continue\<close> leaves the map as it is.\<close>

definition addAddress :: "EndpointAddress \<Rightarrow> nodeToPods \<Rightarrow> nodeToPods" where
  "addAddress address nodeToPods =
     (case TargetRef address of
        None \<Rightarrow> nodeToPods
      | Some ref \<Rightarrow>
          if Kind ref \<noteq> ''Pod'' then nodeToPods
          else
            let namespace = RefNamespace ref; podName = RefName ref in
            if podName = [] \<or> namespace = [] then nodeToPods
            else
              (case NodeName address of
                 None \<Rightarrow> nodeToPods
               | Some nodeName \<Rightarrow>
                   let pods = (case map_of nodeToPods nodeName of None \<Rightarrow> [] | Some ps \<Rightarrow> ps)
                   in AList.update nodeName (AList.update namespace podName pods) nodeToPods))"

text \<open>The two nested loops over subsets and addresses (lines 177-203), started from the
  empty map.\<close>

definition addSubset :: "EndpointSubset \<Rightarrow> nodeToPods \<Rightarrow> nodeToPods" where
  "addSubset sub nodeToPods = fold addAddress (Addresses sub) nodeToPods"

definition buildNodeToPods :: "Endpoints \<Rightarrow> nodeToPods" where
  "buildNodeToPods endpoints = fold addSubset (Subsets endpoints) []"

text \<open>Reading \<^verbatim>\<open>nodeToPods[nodeName][namespace]\<close>.\<close>

definition podFor :: "nodeToPods \<Rightarrow> string \<Rightarrow> string \<Rightarrow> string option" where
  "podFor nodeToPods nodeName namespace =
     (case map_of nodeToPods nodeName of None \<Rightarrow> None | Some pods \<Rightarrow> map_of pods namespace)"

text \<open>The addresses of an Endpoints object in the order the loops visit them.\<close>

definition allAddresses :: "Endpoints \<Rightarrow> EndpointAddress list" where
  "allAddresses endpoints = concat (map Addresses (Subsets endpoints))"

text \<open>An address passes the four checks of the loop body: it has a target reference of
  kind Pod with a pod name and a namespace, and it names a node.\<close>

definition validAddress :: "EndpointAddress \<Rightarrow> bool" where
  "validAddress address =
     (case TargetRef address of
        None \<Rightarrow> False
      | Some ref \<Rightarrow> Kind ref = ''Pod'' \<and> RefName ref \<noteq> [] \<and> RefNamespace ref \<noteq> []
                    \<and> NodeName address \<noteq> None)"

text \<open>A valid address places pod \<open>podName\<close> of \<open>namespace\<close> on \<open>nodeName\<close>.\<close>

definition addressOf :: "EndpointAddress \<Rightarrow> string \<Rightarrow> string \<Rightarrow> string \<Rightarrow> bool" where
  "addressOf address nodeName namespace podName =
     (validAddress address \<and> NodeName address = Some nodeName
      \<and> map_option RefNamespace (TargetRef address) = Some namespace
      \<and> map_option RefName (TargetRef address) = Some podName)"

definition sameSlot :: "EndpointAddress \<Rightarrow> string \<Rightarrow> string \<Rightarrow> bool" where
  "sameSlot address nodeName namespace =
     (validAddress address \<and> NodeName address = Some nodeName
      \<and> map_option RefNamespace (TargetRef address) = Some namespace)"

subsection \<open>Services mapper, bundle and cache\<close>

text \<open>The test file gives the shape of \<^verbatim>\<open>ServicesMapper\<close>: a Go map from namespace to a map
  from pod name to a \<^verbatim>\<open>sets.String\<close> of service names.\<close>

type_synonym ServicesMapper = "string \<Rightarrow> (string \<Rightarrow> string set option) option"

text \<open>Modelled from the spec: the method \<^verbatim>\<open>ServicesMapper.Set\<close> is not among the sources.
  The spec has it add the service name to the pod's service-name set, merging with what
  is there and creating the namespace and pod entries that are missing.\<close>

definition ServicesMapper_Set :: "ServicesMapper \<Rightarrow> string \<Rightarrow> string \<Rightarrow> string \<Rightarrow> ServicesMapper" where
  "ServicesMapper_Set m namespace podName svc =
     (let pods = (case m namespace of None \<Rightarrow> Map.empty | Some ps \<Rightarrow> ps);
          svcs = (case pods podName of None \<Rightarrow> {} | Some s \<Rightarrow> s)
      in m(namespace \<mapsto> pods(podName \<mapsto> insert svc svcs)))"

text \<open>Modelled from the spec: the method \<^verbatim>\<open>ServicesMapper.Delete\<close> is not among the sources.
  The spec has it remove the service name from every pod's service set under the
  namespace and prune the pod entries whose set becomes empty.\<close>

definition ServicesMapper_Delete :: "ServicesMapper \<Rightarrow> string \<Rightarrow> string \<Rightarrow> ServicesMapper" where
  "ServicesMapper_Delete m namespace svc =
     (case m namespace of
        None \<Rightarrow> m
      | Some pods \<Rightarrow>
          m(namespace \<mapsto>
             (\<lambda>podName. case pods podName of
                          None \<Rightarrow> None
                        | Some svcs \<Rightarrow> if svcs - {svc} = {} then None else Some (svcs - {svc}))))"

text \<open>Modelled from the spec: the method \<^verbatim>\<open>ServicesMapper.Get\<close> behind
  \<^verbatim>\<open>ServicesForPod\<close> is not among the sources.  The spec has the lookup go through the
  namespace, then the pod name, and report whether the pod is known; the names come out
  as Go's \<^verbatim>\<open>sets.String.List\<close> gives them, sorted.\<close>

definition ServicesMapper_Get :: "ServicesMapper \<Rightarrow> string \<Rightarrow> string \<Rightarrow> string list \<times> bool" where
  "ServicesMapper_Get m namespace podName =
     (case m namespace of
        None \<Rightarrow> ([], False)
      | Some pods \<Rightarrow>
          (case pods podName of
             None \<Rightarrow> ([], False)
           | Some svcs \<Rightarrow> (sorted_list_of_set svcs, True)))"

text \<open>\<^verbatim>\<open>MetadataMapperBundle\<close>: the services mapper of one node.  Its mutex \<^verbatim>\<open>m\<close> guards
  concurrent access and has no counterpart in a sequential model.\<close>

record MetadataMapperBundle =
  Services :: ServicesMapper

text \<open>Modelled from the spec: \<^verbatim>\<open>newMetadataMapperBundle\<close> is not among the sources; a bundle
  is created empty on the first write for its node.\<close>

definition newMetadataMapperBundle :: MetadataMapperBundle where
  "newMetadataMapperBundle = \<lparr>Services = Map.empty\<rparr>"

text \<open>Modelled from the spec: \<^verbatim>\<open>ServicesForPod\<close> is not among the sources; it reads the
  bundle's services mapper.\<close>

definition ServicesForPod :: "MetadataMapperBundle \<Rightarrow> string \<Rightarrow> string \<Rightarrow> string list \<times> bool" where
  "ServicesForPod b ns podName = ServicesMapper_Get (Services b) ns podName"

text \<open>The cache stores values of Go's empty interface: a pointer to a bundle, or anything
  else (the type assertion of line 261 tells them apart).\<close>

datatype cacheValue = BundleValue MetadataMapperBundle | OtherValue

type_synonym cache = "string \<Rightarrow> cacheValue option"

text \<open>Modelled from the spec: the store behind \<^verbatim>\<open>utilcache.Cache\<close> is not among the
  sources.  The spec gives its boundary as \<^verbatim>\<open>get(key) -> (bundle, found)\<close> and
  \<^verbatim>\<open>set(key, bundle, ttl)\<close>; the time to live is left out, an expired entry being an
  absent one.\<close>

definition Cache_Get :: "cache \<Rightarrow> string \<Rightarrow> cacheValue option" where
  "Cache_Get c cacheKey = c cacheKey"

definition Cache_Set :: "cache \<Rightarrow> string \<Rightarrow> cacheValue \<Rightarrow> cache" where
  "Cache_Set c cacheKey v = c(cacheKey \<mapsto> v)"

text \<open>Modelled from the spec: the constant \<^verbatim>\<open>metadataMapperCachePrefix\<close> and
  \<^verbatim>\<open>BuildAgentKey\<close> are not among the sources.  The spec gives the cache key format as the
  fixed prefix, a slash, and the node name; the value of the prefix plays no role below.\<close>

definition metadataMapperCachePrefix :: string where
  "metadataMapperCachePrefix = ''KubernetesMetadataMapping''"

definition BuildAgentKey :: "string \<Rightarrow> string \<Rightarrow> string" where
  "BuildAgentKey prefix nodeName = prefix @ ''/'' @ nodeName"

text \<open>Modelled from the spec: \<^verbatim>\<open>getMetadataMapBundle\<close> is not among the sources.  It looks
  the node's bundle up in the cache under the node's cache key and fails when there is
  no bundle there; a cached value that is not a bundle counts as no bundle.\<close>

definition getMetadataMapBundle :: "cache \<Rightarrow> string \<Rightarrow> error + MetadataMapperBundle" where
  "getMetadataMapBundle c nodeName =
     (let cacheKey = BuildAgentKey metadataMapperCachePrefix nodeName in
      case Cache_Get c cacheKey of
        Some (BundleValue b) \<Rightarrow> Inr b
      | _ \<Rightarrow> Inl (Err (''the key '' @ cacheKey @ '' was not found in the cache'')))"

subsection \<open>mapService\<close>

text \<open>The second loop of \<^verbatim>\<open>mapService\<close> (lines 206-222), one node at a time: get the node's
  bundle or a new one, set the service for every pair of \<^verbatim>\<open>pods\<close>, store the bundle.\<close>

definition setServices :: "string \<Rightarrow> podsByNamespace \<Rightarrow> MetadataMapperBundle \<Rightarrow> MetadataMapperBundle" where
  "setServices svc pods metaBundle =
     fold (\<lambda>(namespace, podName) b. b\<lparr>Services := ServicesMapper_Set (Services b) namespace podName svc\<rparr>)
          pods metaBundle"

definition mapNode :: "string \<Rightarrow> string \<times> podsByNamespace \<Rightarrow> cache \<Rightarrow> cache" where
  "mapNode svc entry c =
     (case entry of (nodeName, pods) \<Rightarrow>
        let metaBundle = (case getMetadataMapBundle c nodeName of
                            Inl err \<Rightarrow> newMetadataMapperBundle
                          | Inr b \<Rightarrow> b);
            metaBundle' = setServices svc pods metaBundle;
            cacheKey = BuildAgentKey metadataMapperCachePrefix nodeName
        in Cache_Set c cacheKey (BundleValue metaBundle'))"

text \<open>\<^verbatim>\<open>mapService\<close> returns its error (always nil, line 224) and the cache it leaves.\<close>

definition mapService :: "cache \<Rightarrow> Endpoints \<Rightarrow> error option \<times> cache" where
  "mapService c endpoints =
     (let nodeToPods = buildNodeToPods endpoints;
          svc = ObjName endpoints
      in (None, fold (mapNode svc) nodeToPods c))"

subsection \<open>mapDeletedService\<close>

text \<open>The loop over the listed nodes (lines 232-246).  When a node has no bundle the
  function returns nil at once (line 236), so the nodes after it are not visited.\<close>

fun cleanNodes :: "string \<Rightarrow> string \<Rightarrow> string list \<Rightarrow> cache \<Rightarrow> cache" where
  "cleanNodes namespace svc [] c = c"
| "cleanNodes namespace svc (nodeName # nodes) c =
     (case getMetadataMapBundle c nodeName of
        Inl err \<Rightarrow> c
      | Inr metaBundle \<Rightarrow>
          let metaBundle' = metaBundle\<lparr>Services := ServicesMapper_Delete (Services metaBundle) namespace svc\<rparr>;
              cacheKey = BuildAgentKey metadataMapperCachePrefix nodeName
          in cleanNodes namespace svc nodes (Cache_Set c cacheKey (BundleValue metaBundle')))"

subsection \<open>The work queue\<close>

text \<open>The queue is client-go's rate-limiting work queue, outside the repository; this is
  its contract as the spec and the library give it.  \<open>items\<close> is the FIFO of keys ready
  to be handed out, \<open>dirty\<close> the keys that need processing, \<open>processing\<close> the keys
  handed out and not yet done, \<open>failures\<close> the rate limiter's count per key (what
  \<^verbatim>\<open>NumRequeues\<close> reads), \<open>waiting\<close> the keys that \<^verbatim>\<open>AddRateLimited\<close> has scheduled and
  whose delay has not run out.\<close>

record workqueue =
  items :: "string list"
  dirty :: "string set"
  processing :: "string set"
  failures :: "string \<Rightarrow> nat"
  waiting :: "string list"
  shuttingDown :: bool

definition Add :: "workqueue \<Rightarrow> string \<Rightarrow> workqueue" where
  "Add q item =
     (if shuttingDown q then q
      else if item \<in> dirty q then q
      else
        let q1 = q\<lparr>dirty := insert item (dirty q)\<rparr> in
        if item \<in> processing q1 then q1
        else q1\<lparr>items := items q1 @ [item]\<rparr>)"

text \<open>\<^verbatim>\<open>Get\<close> blocks on an empty queue until a key arrives or the queue shuts down.\<close>

datatype getResult = Blocked | Quit | Item string workqueue

definition Get :: "workqueue \<Rightarrow> getResult" where
  "Get q =
     (case items q of
        [] \<Rightarrow> if shuttingDown q then Quit else Blocked
      | item # rest \<Rightarrow>
          Item item (q\<lparr>items := rest, processing := insert item (processing q),
                       dirty := dirty q - {item}\<rparr>))"

definition Done :: "workqueue \<Rightarrow> string \<Rightarrow> workqueue" where
  "Done q item =
     (let q1 = q\<lparr>processing := processing q - {item}\<rparr> in
      if item \<in> dirty q1 then q1\<lparr>items := items q1 @ [item]\<rparr> else q1)"

definition Forget :: "workqueue \<Rightarrow> string \<Rightarrow> workqueue" where
  "Forget q item = q\<lparr>failures := (failures q)(item := 0)\<rparr>"

definition NumRequeues :: "workqueue \<Rightarrow> string \<Rightarrow> nat" where
  "NumRequeues q item = failures q item"

definition AddRateLimited :: "workqueue \<Rightarrow> string \<Rightarrow> workqueue" where
  "AddRateLimited q item =
     (let q1 = q\<lparr>failures := (failures q)(item := Suc (failures q item))\<rparr> in
      if shuttingDown q1 then q1 else q1\<lparr>waiting := waiting q1 @ [item]\<rparr>)"

subsection \<open>The controller\<close>

definition maxRetries :: nat where
  "maxRetries = 15"

text \<open>The listers are the change feed's local store: what \<^verbatim>\<open>nodeLister.List\<close> returns
  (the names of the nodes, or an error) and what \<^verbatim>\<open>endpointsLister.Endpoints(ns).Get(name)\<close>
  returns.\<close>

record MetadataController =
  nodeLister :: "error + string list"
  endpointsLister :: "string \<Rightarrow> string \<Rightarrow> error + Endpoints"
  queue :: workqueue

definition mapDeletedService :: "MetadataController \<Rightarrow> cache \<Rightarrow> string \<Rightarrow> string \<Rightarrow> error option \<times> cache" where
  "mapDeletedService m c namespace svc =
     (case nodeLister m of
        Inl err \<Rightarrow> (Some err, c)
      | Inr nodes \<Rightarrow> (None, cleanNodes namespace svc nodes c))"

text \<open>Go's \<^verbatim>\<open>strings.Split(key, "/")\<close> and client-go's \<^verbatim>\<open>cache.SplitMetaNamespaceKey\<close>: one
  part is a name without namespace, two parts are namespace and name, more is an error.\<close>

fun splitSlash :: "string \<Rightarrow> string list" where
  "splitSlash [] = [Nil]"
| "splitSlash (ch # cs) =
     (if ch = CHR ''/'' then [] # splitSlash cs
      else (case splitSlash cs of
              [] \<Rightarrow> [ch # Nil]
            | part # parts \<Rightarrow> (ch # part) # parts))"

definition SplitMetaNamespaceKey :: "string \<Rightarrow> error + string \<times> string" where
  "SplitMetaNamespaceKey key =
     (case splitSlash key of
        [name] \<Rightarrow> Inr ([], name)
      | [namespace, name] \<Rightarrow> Inr (namespace, name)
      | _ \<Rightarrow> Inl (Err (''unexpected key format: '' @ key)))"

definition reconcileKey :: "MetadataController \<Rightarrow> cache \<Rightarrow> string \<Rightarrow> error option \<times> cache" where
  "reconcileKey m c key =
     (case SplitMetaNamespaceKey key of
        Inl err \<Rightarrow> (Some err, c)
      | Inr (namespace, name) \<Rightarrow>
          (case endpointsLister m namespace name of
             Inl err \<Rightarrow>
               if IsNotFound (Some err) then mapDeletedService m c namespace name
               else (Some err, c)
           | Inr endpoints \<Rightarrow> mapService c endpoints))"

text \<open>\<^verbatim>\<open>processNextWorkItem\<close> returns whether the worker goes on, with the controller and
  the cache it leaves; None stands for a call that blocks in \<^verbatim>\<open>Get\<close>.  The deferred
  \<^verbatim>\<open>Done\<close> runs last on every path after \<^verbatim>\<open>Get\<close>.\<close>

definition processNextWorkItem :: "MetadataController \<Rightarrow> cache \<Rightarrow> (bool \<times> MetadataController \<times> cache) option" where
  "processNextWorkItem m c =
     (case Get (queue m) of
        Blocked \<Rightarrow> None
      | Quit \<Rightarrow> Some (False, m, c)
      | Item key q \<Rightarrow>
          (case reconcileKey (m\<lparr>queue := q\<rparr>) c key of (err, c') \<Rightarrow>
             if err = None then Some (True, m\<lparr>queue := Done (Forget q key) key\<rparr>, c')
             else if NumRequeues q key < maxRetries
               then Some (True, m\<lparr>queue := Done (AddRateLimited q key) key\<rparr>, c')
             else Some (True, m\<lparr>queue := Done (Forget q key) key\<rparr>, c')))"

subsection \<open>Event handlers\<close>

text \<open>What the change feed hands to a handler is a value of the empty interface: a
  pointer to an Endpoints object, client-go's tombstone \<^verbatim>\<open>cache.DeletedFinalStateUnknown\<close>
  (a struct of the key and the last known object), or something else, which may or may
  not carry object metadata (namespace and name).\<close>

datatype obj =
    EndpointsObj Endpoints
  | DeletedFinalStateUnknown string obj
  | OtherObj "(string \<times> string) option"

text \<open>client-go's \<^verbatim>\<open>cache.MetaNamespaceKeyFunc\<close>, outside the repository: it reads the
  metadata of an API object and returns \<^verbatim>\<open>namespace/name\<close>, or the name alone when the
  namespace is empty.  A tombstone is a plain struct without object metadata, so the
  function fails on it (the library has \<^verbatim>\<open>DeletionHandlingMetaNamespaceKeyFunc\<close> for
  tombstones; the controller does not call it).\<close>

definition metaKey :: "string \<Rightarrow> string \<Rightarrow> string" where
  "metaKey namespace name = (if namespace \<noteq> [] then namespace @ ''/'' @ name else name)"

fun MetaNamespaceKeyFunc :: "obj \<Rightarrow> error + string" where
  "MetaNamespaceKeyFunc (EndpointsObj e) = Inr (metaKey (ObjNamespace e) (ObjName e))"
| "MetaNamespaceKeyFunc (OtherObj (Some (namespace, name))) = Inr (metaKey namespace name)"
| "MetaNamespaceKeyFunc (OtherObj None) = Inl (Err ''object has no meta'')"
| "MetaNamespaceKeyFunc (DeletedFinalStateUnknown k x) = Inl (Err ''object has no meta'')"

definition enqueue :: "MetadataController \<Rightarrow> obj \<Rightarrow> MetadataController" where
  "enqueue m x =
     (case MetaNamespaceKeyFunc x of
        Inl err \<Rightarrow> m
      | Inr key \<Rightarrow> m\<lparr>queue := Add (queue m) key\<rparr>)"

text \<open>\<^verbatim>\<open>deleteEndpoints\<close> (lines 126-142): the two early returns, then \<^verbatim>\<open>m.enqueue(obj)\<close>
  with the payload as it came, not with the Endpoints object found inside a tombstone.\<close>

fun deleteEndpoints :: "MetadataController \<Rightarrow> obj \<Rightarrow> MetadataController" where
  "deleteEndpoints m (EndpointsObj endpoints) = enqueue m (EndpointsObj endpoints)"
| "deleteEndpoints m (DeletedFinalStateUnknown k (EndpointsObj endpoints)) =
     enqueue m (DeletedFinalStateUnknown k (EndpointsObj endpoints))"
| "deleteEndpoints m (DeletedFinalStateUnknown k other) = m"
| "deleteEndpoints m (OtherObj meta) = m"

subsection \<open>The read path\<close>

text \<open>\<^verbatim>\<open>GetPodMetadataNames\<close> returns Go's pair of the list (nil is the empty list) and the
  error, and the cache as the call leaves it.\<close>

definition GetPodMetadataNames :: "cache \<Rightarrow> string \<Rightarrow> string \<Rightarrow> string \<Rightarrow> (string list \<times> error option) \<times> cache" where
  "GetPodMetadataNames c nodeName ns podName =
     (let cacheKey = BuildAgentKey metadataMapperCachePrefix nodeName in
      case Cache_Get c cacheKey of
        None \<Rightarrow> (([], None), c)
      | Some OtherValue \<Rightarrow>
          (([], Some (Err (''invalid cache format for the cacheKey: '' @ cacheKey))), c)
      | Some (BundleValue metaBundle) \<Rightarrow>
          (case ServicesForPod metaBundle ns podName of
             (serviceList, foundServices) \<Rightarrow>
               if \<not> foundServices then (([], None), c)
               else ((map (\<lambda>s. ''kube_service:'' @ s) serviceList, None), c)))"

subsection \<open>Reading the cache in the statements below\<close>

text \<open>The service names a bundle holds for a pod (none when the pod has no entry), and
  the names the cache holds for a pod of a node.\<close>

definition servicesOf :: "MetadataMapperBundle \<Rightarrow> string \<Rightarrow> string \<Rightarrow> string set" where
  "servicesOf b namespace podName =
     (case Services b namespace of
        None \<Rightarrow> {}
      | Some pods \<Rightarrow> (case pods podName of None \<Rightarrow> {} | Some svcs \<Rightarrow> svcs))"

definition servicesAt :: "cache \<Rightarrow> string \<Rightarrow> string \<Rightarrow> string \<Rightarrow> string set" where
  "servicesAt c nodeName namespace podName =
     (case getMetadataMapBundle c nodeName of
        Inl err \<Rightarrow> {}
      | Inr b \<Rightarrow> servicesOf b namespace podName)"

text \<open>Running \<^verbatim>\<open>mapService\<close> on a sequence of Endpoints objects, one after the other.\<close>

definition mapServices :: "Endpoints list \<Rightarrow> cache \<Rightarrow> cache" where
  "mapServices eps c = fold (\<lambda>endpoints c'. snd (mapService c' endpoints)) eps c"

subsection \<open>Notions used in the statements\<close>

text \<open>An Endpoints object without the addresses that fail a check of the loop body.\<close>

definition dropInvalid :: "Endpoints \<Rightarrow> Endpoints" where
  "dropInvalid endpoints =
     endpoints\<lparr>Subsets := map (\<lambda>s. s\<lparr>Addresses := filter validAddress (Addresses s)\<rparr>) (Subsets endpoints)\<rparr>"

text \<open>The pass of \<^verbatim>\<open>mapService\<close> over an Endpoints object retains the pod for a node and a
  namespace: it is what the transient map holds when the first loop ends.\<close>

definition retains :: "Endpoints \<Rightarrow> string \<Rightarrow> string \<Rightarrow> string \<Rightarrow> bool" where
  "retains ep nodeName namespace podName =
     (podFor (buildNodeToPods ep) nodeName namespace = Some podName)"

text \<open>The bundle's services mapper has an entry for the pod.\<close>

definition hasEntry :: "MetadataMapperBundle \<Rightarrow> string \<Rightarrow> string \<Rightarrow> bool" where
  "hasEntry b ns podName =
     (case Services b ns of None \<Rightarrow> False | Some pods \<Rightarrow> pods podName \<noteq> None)"

text \<open>A Go map has one value per key: the association list has no key twice, at either
  level.\<close>

definition wfMap :: "nodeToPods \<Rightarrow> bool" where
  "wfMap m = (distinct (map fst m) \<and> (\<forall>(n, pods)\<in>set m. distinct (map fst pods)))"

subsection \<open>Concrete objects\<close>

text \<open>The address of a pod on a node, as the test file's \<^verbatim>\<open>newFakeEndpointAddress\<close> builds
  it, and Endpoints objects after those of \<^verbatim>\<open>TestMetadataControllerMapServices\<close>.\<close>

definition podAddress :: "string \<Rightarrow> string \<Rightarrow> string \<Rightarrow> EndpointAddress" where
  "podAddress nodeName namespace podName =
     \<lparr>TargetRef = Some \<lparr>Kind = ''Pod'', RefNamespace = namespace, RefName = podName\<rparr>,
      NodeName = Some nodeName\<rparr>"

definition svc1TwoPods :: Endpoints where
  "svc1TwoPods =
     \<lparr>ObjNamespace = [], ObjName = ''svc1'',
      Subsets = [\<lparr>Addresses = [podAddress ''node1'' ''foo'' ''pod1_name'',
                               podAddress ''node1'' ''foo'' ''pod2_name'']\<rparr>]\<rparr>"

definition svc1OnNode2 :: Endpoints where
  "svc1OnNode2 =
     \<lparr>ObjNamespace = ''foo'', ObjName = ''svc1'',
      Subsets = [\<lparr>Addresses = [podAddress ''node2'' ''foo'' ''pod2_name'']\<rparr>]\<rparr>"

definition svc2OnNode1 :: Endpoints where
  "svc2OnNode1 =
     \<lparr>ObjNamespace = [], ObjName = ''svc2'',
      Subsets = [\<lparr>Addresses = [podAddress ''node1'' ''foo'' ''pod2_name'']\<rparr>]\<rparr>"

text \<open>One address without target, one whose target is not a pod, one without node, and
  one valid address.\<close>

definition noTarget :: EndpointAddress where
  "noTarget = \<lparr>TargetRef = None, NodeName = Some ''node1''\<rparr>"

definition svc1Mixed :: Endpoints where
  "svc1Mixed =
     \<lparr>ObjNamespace = [], ObjName = ''svc1'',
      Subsets = [\<lparr>Addresses = [noTarget,
                               \<lparr>TargetRef = Some \<lparr>Kind = ''Node'', RefNamespace = ''foo'', RefName = ''pod3_name''\<rparr>,
                                NodeName = Some ''node1''\<rparr>,
                               \<lparr>TargetRef = Some \<lparr>Kind = ''Pod'', RefNamespace = ''foo'', RefName = ''pod4_name''\<rparr>,
                                NodeName = None\<rparr>,
                               podAddress ''node1'' ''foo'' ''pod1_name'']\<rparr>]\<rparr>"

definition svc1NoTarget :: Endpoints where
  "svc1NoTarget = \<lparr>ObjNamespace = [], ObjName = ''svc1'', Subsets = [\<lparr>Addresses = [noTarget]\<rparr>]\<rparr>"

definition emptyQueue :: workqueue where
  "emptyQueue = \<lparr>items = [], dirty = {}, processing = {}, failures = (\<lambda>k. 0), waiting = [],
                  shuttingDown = False\<rparr>"

text \<open>Two nodes are known and the store has no Endpoints object.\<close>

definition ctrlTwoNodes :: MetadataController where
  "ctrlTwoNodes = \<lparr>nodeLister = Inr [''node1'', ''node2''],
                    endpointsLister = (\<lambda>namespace name. Inl NotFound),
                    queue = emptyQueue\<rparr>"

text \<open>The store fails on every lookup; the key \<^verbatim>\<open>foo/svc1\<close> is queued.\<close>

definition ctrlStoreFailure :: MetadataController where
  "ctrlStoreFailure = \<lparr>nodeLister = Inr [''node1'', ''node2''],
                        endpointsLister = (\<lambda>namespace name. Inl (Err ''store failure'')),
                        queue = emptyQueue\<lparr>items := [''foo/svc1'']\<rparr>\<rparr>"

text \<open>The same with the key's retry counter at the ceiling.\<close>

definition ctrlAtCeiling :: MetadataController where
  "ctrlAtCeiling = ctrlStoreFailure\<lparr>queue := emptyQueue\<lparr>items := [''foo/svc1''],
                                                        failures := (\<lambda>k. 15)\<rparr>\<rparr>"

text \<open>The store has no Endpoints object and the nodes cannot be listed.\<close>

definition ctrlListFailure :: MetadataController where
  "ctrlListFailure = \<lparr>nodeLister = Inl (Err ''list failure''),
                       endpointsLister = (\<lambda>namespace name. Inl NotFound),
                       queue = emptyQueue\<rparr>"

text \<open>The cache after \<^verbatim>\<open>svc1\<close> was mapped to a pod of node2, and a cache whose entry for
  node1 is not a bundle.\<close>

definition cacheNode2 :: cache where
  "cacheNode2 = mapServices [svc1OnNode2] Map.empty"

definition bundleNode2 :: MetadataMapperBundle where
  "bundleNode2 = \<lparr>Services = Map.empty(''foo'' \<mapsto> Map.empty(''pod2_name'' \<mapsto> {''svc1''}))\<rparr>"

definition corruptCache :: cache where
  "corruptCache = Map.empty(BuildAgentKey metadataMapperCachePrefix ''node1'' \<mapsto> OtherValue)"

section \<open>The transient map\<close>

lemma podFor_put:
  "podFor (AList.update n (AList.update ns p (case map_of m n of None \<Rightarrow> [] | Some ps \<Rightarrow> ps)) m) n' ns'
     = (if n' = n \<and> ns' = ns then Some p else podFor m n' ns')"
  by (auto simp: podFor_def update_conv' split: option.splits)

lemma podFor_empty: "podFor [] n ns = None"
  by (simp add: podFor_def)

lemma addAddress_invalid: "\<not> validAddress a \<Longrightarrow> addAddress a m = m"
  by (auto simp: validAddress_def addAddress_def Let_def split: option.splits)

lemma addAddress_valid:
  "addressOf a n ns p \<Longrightarrow>
   podFor (addAddress a m) n' ns' = (if n' = n \<and> ns' = ns then Some p else podFor m n' ns')"
  unfolding addressOf_def validAddress_def addAddress_def Let_def
  by (cases "TargetRef a") (auto simp: podFor_put simp del: AList.update.simps)

lemma validAddress_addressOf: "validAddress a \<Longrightarrow> \<exists>n ns p. addressOf a n ns p"
  by (auto simp: addressOf_def validAddress_def split: option.splits)

lemma sameSlot_iff: "addressOf a n' ns' p \<Longrightarrow> sameSlot a n ns \<longleftrightarrow> n = n' \<and> ns = ns'"
  by (auto simp: addressOf_def sameSlot_def)

lemma fold_addAddress_filter:
  "fold addAddress (filter validAddress as) m = fold addAddress as m"
  by (induction as arbitrary: m) (simp_all add: addAddress_invalid)

lemma fold_addAddress_none:
  "\<forall>a\<in>set as. \<not> validAddress a \<Longrightarrow> fold addAddress as m = m"
  by (induction as arbitrary: m) (simp_all add: addAddress_invalid)

lemma fold_addSubset:
  "fold addSubset ss m = fold addAddress (concat (map Addresses ss)) m"
  by (induction ss arbitrary: m) (simp_all add: addSubset_def)

lemma buildNodeToPods_flat:
  "buildNodeToPods ep = fold addAddress (allAddresses ep) []"
  by (simp add: buildNodeToPods_def allAddresses_def fold_addSubset)

lemma allAddresses_dropInvalid:
  "allAddresses (dropInvalid ep) = filter validAddress (allAddresses ep)"
  by (simp add: allAddresses_def dropInvalid_def filter_concat comp_def)

lemma buildNodeToPods_dropInvalid: "buildNodeToPods (dropInvalid ep) = buildNodeToPods ep"
  by (simp add: buildNodeToPods_flat allAddresses_dropInvalid fold_addAddress_filter)

text \<open>Addresses for other slots leave the slot of a node and a namespace as it is.\<close>

lemma podFor_fold_other:
  "\<forall>b\<in>set ys. \<not> sameSlot b n ns \<Longrightarrow> podFor (fold addAddress ys m) n ns = podFor m n ns"
proof (induction ys arbitrary: m)
  case Nil
  then show ?case by simp
next
  case (Cons b ys)
  have "podFor (addAddress b m) n ns = podFor m n ns"
  proof (cases "validAddress b")
    case False
    then show ?thesis by (simp add: addAddress_invalid)
  next
    case True
    then obtain n' ns' p' where b: "addressOf b n' ns' p'"
      using validAddress_addressOf by blast
    with Cons.prems have "\<not> (n = n' \<and> ns = ns')"
      by (auto simp: sameSlot_iff)
    with b show ?thesis by (auto simp: addAddress_valid)
  qed
  with Cons show ?case by simp
qed

text \<open>What a slot holds was put there by a valid address, or was there before.\<close>

lemma podFor_fold_origin:
  "podFor (fold addAddress as m) n ns = Some p \<Longrightarrow>
   (\<exists>a\<in>set as. addressOf a n ns p) \<or> podFor m n ns = Some p"
proof (induction as arbitrary: m)
  case Nil
  then show ?case by simp
next
  case (Cons b as)
  from Cons.IH [of "addAddress b m"] Cons.prems
  consider "\<exists>a\<in>set as. addressOf a n ns p" | "podFor (addAddress b m) n ns = Some p"
    by auto
  then show ?case
  proof cases
    case 1
    then show ?thesis by auto
  next
    case 2
    show ?thesis
    proof (cases "validAddress b")
      case False
      with 2 show ?thesis by (simp add: addAddress_invalid)
    next
      case True
      then obtain n' ns' p' where b: "addressOf b n' ns' p'"
        using validAddress_addressOf by blast
      with 2 show ?thesis
        by (auto simp: addAddress_valid split: if_splits)
    qed
  qed
qed

text \<open>The list keeps one pair per key, so membership and lookup agree.\<close>

lemma set_update_cases:
  "(k, v) \<in> set (AList.update k0 v0 al) \<Longrightarrow> (k, v) = (k0, v0) \<or> (k, v) \<in> set al"
  by (induction al) (auto split: if_splits)

lemma wfMap_addAddress:
  assumes wf: "wfMap m"
  shows "wfMap (addAddress a m)"
proof -
  have put: "wfMap (AList.update n (AList.update ns p (case map_of m n of None \<Rightarrow> [] | Some ps \<Rightarrow> ps)) m)"
    for n ns p
  proof -
    have "distinct (map fst (case map_of m n of None \<Rightarrow> [] | Some ps \<Rightarrow> ps))"
      using wf by (auto simp: wfMap_def split: option.splits dest!: map_of_SomeD)
    then have "distinct (map fst (AList.update ns p (case map_of m n of None \<Rightarrow> [] | Some ps \<Rightarrow> ps)))"
      by (rule distinct_update)
    with wf show ?thesis
      unfolding wfMap_def
      by (auto simp: distinct_update simp del: AList.update.simps dest!: set_update_cases)
  qed
  show ?thesis
    unfolding addAddress_def Let_def
    by (auto simp: wf put split: option.splits simp del: AList.update.simps)
qed

lemma wfMap_fold: "wfMap m \<Longrightarrow> wfMap (fold addAddress as m)"
  by (induction as arbitrary: m) (simp_all add: wfMap_addAddress)

lemma wfMap_build: "wfMap (buildNodeToPods ep)"
proof -
  have "wfMap []" by (simp add: wfMap_def)
  then show ?thesis
    unfolding buildNodeToPods_flat by (rule wfMap_fold)
qed

lemma wfMap_podFor:
  "wfMap m \<Longrightarrow> (\<exists>pods. (n, pods) \<in> set m \<and> (ns, p) \<in> set pods) \<longleftrightarrow> podFor m n ns = Some p"
  by (fastforce simp: wfMap_def podFor_def split: option.splits)

section \<open>Merging into the bundles\<close>

lemma servicesOf_Set:
  "servicesOf (b\<lparr>Services := ServicesMapper_Set (Services b) ns0 p0 svc\<rparr>) ns p
     = servicesOf b ns p \<union> (if ns = ns0 \<and> p = p0 then {svc} else {})"
  by (auto simp: servicesOf_def ServicesMapper_Set_def Let_def split: option.splits)

lemma servicesOf_setServices:
  "servicesOf (setServices svc pods b) ns p
     = servicesOf b ns p \<union> (if (ns, p) \<in> set pods then {svc} else {})"
  unfolding setServices_def
proof (induction pods arbitrary: b)
  case Nil
  then show ?case by simp
next
  case (Cons x pods)
  obtain ns0 p0 where x: "x = (ns0, p0)" by (cases x)
  show ?case
    by (auto simp: x Cons.IH servicesOf_Set)
qed

lemma servicesOf_new: "servicesOf newMetadataMapperBundle ns p = {}"
  by (simp add: servicesOf_def newMetadataMapperBundle_def)

text \<open>Distinct nodes have distinct cache keys, so a write for one node is not seen
  through another.\<close>

lemma BuildAgentKey_inj: "BuildAgentKey pre n = BuildAgentKey pre n' \<longleftrightarrow> n = n'"
  by (simp add: BuildAgentKey_def)

lemma getMetadataMapBundle_Set:
  "getMetadataMapBundle (Cache_Set c (BuildAgentKey metadataMapperCachePrefix n) (BundleValue b)) n'
     = (if n' = n then Inr b else getMetadataMapBundle c n')"
  by (simp add: getMetadataMapBundle_def Cache_Set_def Cache_Get_def Let_def BuildAgentKey_inj)

lemma servicesAt_empty: "servicesAt Map.empty n ns p = {}"
  by (simp add: servicesAt_def getMetadataMapBundle_def Cache_Get_def Let_def)

lemma servicesAt_mapNode:
  "servicesAt (mapNode svc (n, pods) c) n' ns p
     = servicesAt c n' ns p \<union> (if n' = n \<and> (ns, p) \<in> set pods then {svc} else {})"
  by (auto simp: servicesAt_def mapNode_def Let_def getMetadataMapBundle_Set
        servicesOf_setServices servicesOf_new split: sum.splits)

lemma servicesAt_fold_mapNode:
  "servicesAt (fold (mapNode svc) m c) n ns p
     = servicesAt c n ns p \<union> (if \<exists>pods. (n, pods) \<in> set m \<and> (ns, p) \<in> set pods then {svc} else {})"
proof (induction m arbitrary: c)
  case Nil
  then show ?case by simp
next
  case (Cons x m)
  obtain n0 pods0 where x: "x = (n0, pods0)" by (cases x)
  show ?case
    by (auto simp: x Cons.IH servicesAt_mapNode)
qed

lemma servicesAt_mapService:
  "servicesAt (snd (mapService c ep)) n ns p
     = servicesAt c n ns p \<union> (if podFor (buildNodeToPods ep) n ns = Some p then {ObjName ep} else {})"
  using wfMap_podFor [OF wfMap_build, of n ep ns p]
  by (simp add: mapService_def Let_def servicesAt_fold_mapNode)

lemma servicesAt_mapServices:
  "servicesAt (mapServices eps c) n ns p
     = servicesAt c n ns p \<union> {ObjName ep |ep. ep \<in> set eps \<and> podFor (buildNodeToPods ep) n ns = Some p}"
  unfolding mapServices_def
proof (induction eps arbitrary: c)
  case Nil
  then show ?case by simp
next
  case (Cons e eps)
  show ?case
    by (auto simp: Cons.IH servicesAt_mapService)
qed

lemma mapService_ok: "fst (mapService c endpoints) = None"
  by (simp add: mapService_def Let_def)

text \<open>The equations that evaluate the write path on concrete objects.\<close>

lemmas eval_defs =
  servicesAt_def mapServices_def mapService_def buildNodeToPods_def addSubset_def
  addAddress_def podAddress_def mapNode_def setServices_def
  getMetadataMapBundle_def Cache_Get_def Cache_Set_def BuildAgentKey_def
  newMetadataMapperBundle_def ServicesMapper_Set_def ServicesMapper_Delete_def servicesOf_def Let_def
  mapDeletedService_def

section \<open>The work queue\<close>

lemma Get_Item:
  "Get q0 = Item key q \<Longrightarrow>
   items q0 = key # items q \<and> key \<notin> dirty q \<and> waiting q = waiting q0
   \<and> failures q = failures q0 \<and> shuttingDown q = shuttingDown q0"
  by (auto simp: Get_def split: list.splits if_splits)

lemma Done_Forget:
  "key \<notin> dirty q \<Longrightarrow>
   key \<notin> processing (Done (Forget q key) key)
   \<and> items (Done (Forget q key) key) = items q
   \<and> NumRequeues (Done (Forget q key) key) key = 0
   \<and> waiting (Done (Forget q key) key) = waiting q"
  by (simp add: Done_def Forget_def NumRequeues_def)

lemma Done_AddRateLimited:
  "key \<notin> dirty q \<Longrightarrow>
   key \<notin> processing (Done (AddRateLimited q key) key)
   \<and> items (Done (AddRateLimited q key) key) = items q
   \<and> NumRequeues (Done (AddRateLimited q key) key) key = NumRequeues q key + 1
   \<and> (\<not> shuttingDown q \<longrightarrow> waiting (Done (AddRateLimited q key) key) = waiting q @ [key])"
  by (simp add: Done_def AddRateLimited_def NumRequeues_def Let_def)

section \<open>Claims\<close>

text \<open>C1. Deleting an endpoint object is meant to remove its service name from the bundle
  of every known node, passing over the nodes that have no bundle.  The loop of
  \<^verbatim>\<open>mapDeletedService\<close> returns at the first node without a bundle instead: with node1 (no
  bundle) listed before node2, the call succeeds and node2's bundle still maps the pod to
  \<^verbatim>\<open>svc1\<close>; with node2 listed first the name is removed and the pod entry pruned.\<close>

theorem mapDeletedService_stops_at_missing_bundle:
  "nodeLister ctrlTwoNodes = Inr [''node1'', ''node2'']
   \<and> servicesAt cacheNode2 ''node2'' ''foo'' ''pod2_name'' = {''svc1''}
   \<and> fst (mapDeletedService ctrlTwoNodes cacheNode2 ''foo'' ''svc1'') = None
   \<and> servicesAt (snd (mapDeletedService ctrlTwoNodes cacheNode2 ''foo'' ''svc1'')) ''node2'' ''foo'' ''pod2_name''
       = {''svc1''}
   \<and> servicesAt (snd (mapDeletedService (ctrlTwoNodes\<lparr>nodeLister := Inr [''node2'', ''node1'']\<rparr>) cacheNode2 ''foo'' ''svc1''))
         ''node2'' ''foo'' ''pod2_name'' = {}"
  by (simp add: ctrlTwoNodes_def cacheNode2_def svc1OnNode2_def eval_defs)

text \<open>C2, as stated: after a sequence of reconciliations the set stored for every valid
  address is the union of the names of the objects that referenced the address.  It fails
  for an object with two valid addresses on one node in one namespace: the first address
  is valid and referenced by \<^verbatim>\<open>svc1\<close>, yet \<^verbatim>\<open>svc1\<close> is not stored for its pod.\<close>

theorem mapService_overwritten_address_not_recorded:
  "podAddress ''node1'' ''foo'' ''pod1_name'' \<in> set (allAddresses svc1TwoPods)
   \<and> addressOf (podAddress ''node1'' ''foo'' ''pod1_name'') ''node1'' ''foo'' ''pod1_name''
   \<and> ObjName svc1TwoPods = ''svc1''
   \<and> ''svc1'' \<notin> servicesAt (mapServices [svc1TwoPods] Map.empty) ''node1'' ''foo'' ''pod1_name''"
  by (simp add: svc1TwoPods_def allAddresses_def addressOf_def validAddress_def eval_defs)

text \<open>C2, amended: for every sequence of Endpoints objects run through \<^verbatim>\<open>mapService\<close>, every
  node, namespace and pod name, the service names stored afterwards are the names stored
  before together with the names of the objects whose pass retained that pod for the node
  and namespace (the last valid address of the pass for that node and namespace).  Names
  are merged, never replaced; from the empty cache the stored set is exactly that union.\<close>

theorem mapServices_union_of_retained:
  "servicesAt (mapServices eps c) nodeName namespace podName
     = servicesAt c nodeName namespace podName
       \<union> {ObjName ep |ep. ep \<in> set eps \<and> retains ep nodeName namespace podName}"
  by (simp add: servicesAt_mapServices retains_def)

theorem mapServices_union_of_retained_witness:
  "servicesAt (mapServices [svc1TwoPods, svc2OnNode1] Map.empty) ''node1'' ''foo'' ''pod2_name''
     = {''svc1'', ''svc2''}"
proof -
  have r: "retains svc1TwoPods ''node1'' ''foo'' ''pod2_name''"
    "retains svc2OnNode1 ''node1'' ''foo'' ''pod2_name''"
    by (simp_all add: retains_def podFor_def svc1TwoPods_def svc2OnNode1_def buildNodeToPods_def
        addSubset_def addAddress_def podAddress_def)
  have n: "ObjName svc1TwoPods = ''svc1''" "ObjName svc2OnNode1 = ''svc2''"
    by (simp_all add: svc1TwoPods_def svc2OnNode1_def)
  have "{ObjName ep |ep. ep \<in> set [svc1TwoPods, svc2OnNode1] \<and> retains ep ''node1'' ''foo'' ''pod2_name''}
          = {ObjName svc1TwoPods, ObjName svc2OnNode1}"
    using r by fastforce
  with n show ?thesis
    using mapServices_union_of_retained
      [of "[svc1TwoPods, svc2OnNode1]" Map.empty "''node1''" "''foo''" "''pod2_name''"]
    by (simp add: servicesAt_empty)
qed

text \<open>C3. When \<^verbatim>\<open>processNextWorkItem\<close> gets a key, it returns true with the key marked done
  and removed from the head of the queue.  If reconciliation succeeds the key's retry
  counter is cleared.  If it fails and the counter is below 15, the key is re-enqueued
  through the rate limiter (counter plus one; scheduled unless the queue is shutting
  down).  If it fails with the counter at 15 or more, the counter is cleared and the key
  is not scheduled again.\<close>

theorem processNextWorkItem_retry_policy:
  assumes "Get (queue m) = Item key q"
    and "reconcileKey (m\<lparr>queue := q\<rparr>) c key = (err, c')"
  shows "\<exists>m'. processNextWorkItem m c = Some (True, m', c')
     \<and> key \<notin> processing (queue m')
     \<and> items (queue m') = tl (items (queue m))
     \<and> (err = None \<longrightarrow>
          queue m' = Done (Forget q key) key
          \<and> NumRequeues (queue m') key = 0 \<and> waiting (queue m') = waiting (queue m))
     \<and> (err \<noteq> None \<and> NumRequeues (queue m) key < 15 \<longrightarrow>
          queue m' = Done (AddRateLimited q key) key
          \<and> NumRequeues (queue m') key = NumRequeues (queue m) key + 1
          \<and> (\<not> shuttingDown (queue m) \<longrightarrow> waiting (queue m') = waiting (queue m) @ [key]))
     \<and> (err \<noteq> None \<and> \<not> NumRequeues (queue m) key < 15 \<longrightarrow>
          queue m' = Done (Forget q key) key
          \<and> NumRequeues (queue m') key = 0 \<and> waiting (queue m') = waiting (queue m))"
proof -
  note g = Get_Item [OF assms(1)]
  then have nd: "key \<notin> dirty q"
    and n: "NumRequeues q key = NumRequeues (queue m) key"
    by (simp_all add: NumRequeues_def)
  show ?thesis
  proof (cases err)
    case None
    then have "processNextWorkItem m c = Some (True, m\<lparr>queue := Done (Forget q key) key\<rparr>, c')"
      by (simp add: processNextWorkItem_def assms)
    with None Done_Forget [OF nd] g show ?thesis by simp
  next
    case (Some e)
    show ?thesis
    proof (cases "NumRequeues (queue m) key < 15")
      case True
      with Some n have "processNextWorkItem m c = Some (True, m\<lparr>queue := Done (AddRateLimited q key) key\<rparr>, c')"
        by (simp add: processNextWorkItem_def assms maxRetries_def)
      with Some True Done_AddRateLimited [OF nd] g n show ?thesis by simp
    next
      case False
      with Some n have "processNextWorkItem m c = Some (True, m\<lparr>queue := Done (Forget q key) key\<rparr>, c')"
        by (simp add: processNextWorkItem_def assms maxRetries_def)
      with Some False Done_Forget [OF nd] g show ?thesis by simp
    qed
  qed
qed

theorem processNextWorkItem_retry_policy_witness:
  "Get (queue ctrlStoreFailure) = Item ''foo/svc1'' (emptyQueue\<lparr>processing := {''foo/svc1''}\<rparr>)
   \<and> reconcileKey (ctrlStoreFailure\<lparr>queue := emptyQueue\<lparr>processing := {''foo/svc1''}\<rparr>\<rparr>) Map.empty ''foo/svc1''
        = (Some (Err ''store failure''), Map.empty)
   \<and> NumRequeues (queue ctrlStoreFailure) ''foo/svc1'' = 0
   \<and> map_option (\<lambda>(again, m', c'). (again, waiting (queue m'), NumRequeues (queue m') ''foo/svc1''))
         (processNextWorkItem ctrlStoreFailure Map.empty)
       = Some (True, [''foo/svc1''], 1)
   \<and> NumRequeues (queue ctrlAtCeiling) ''foo/svc1'' = 15
   \<and> map_option (\<lambda>(again, m', c'). (again, waiting (queue m'), NumRequeues (queue m') ''foo/svc1''))
         (processNextWorkItem ctrlAtCeiling Map.empty)
       = Some (True, [], 0)"
proof -
  have a: "Get (queue ctrlStoreFailure) = Item ''foo/svc1'' (emptyQueue\<lparr>processing := {''foo/svc1''}\<rparr>)"
    by (simp add: Get_def ctrlStoreFailure_def emptyQueue_def)
  have b: "reconcileKey (ctrlStoreFailure\<lparr>queue := emptyQueue\<lparr>processing := {''foo/svc1''}\<rparr>\<rparr>) Map.empty ''foo/svc1''
        = (Some (Err ''store failure''), Map.empty)"
    by (simp add: reconcileKey_def SplitMetaNamespaceKey_def ctrlStoreFailure_def IsNotFound_def)
  have c: "NumRequeues (queue ctrlStoreFailure) ''foo/svc1'' = 0" "waiting (queue ctrlStoreFailure) = []"
    "\<not> shuttingDown (queue ctrlStoreFailure)"
    by (simp_all add: NumRequeues_def ctrlStoreFailure_def emptyQueue_def)
  have a': "Get (queue ctrlAtCeiling)
              = Item ''foo/svc1'' (emptyQueue\<lparr>failures := (\<lambda>k. 15), processing := {''foo/svc1''}\<rparr>)"
    by (simp add: Get_def ctrlAtCeiling_def emptyQueue_def)
  have b': "reconcileKey (ctrlAtCeiling\<lparr>queue := emptyQueue\<lparr>failures := (\<lambda>k. 15), processing := {''foo/svc1''}\<rparr>\<rparr>)
              Map.empty ''foo/svc1''
        = (Some (Err ''store failure''), Map.empty)"
    by (simp add: reconcileKey_def SplitMetaNamespaceKey_def ctrlAtCeiling_def ctrlStoreFailure_def
        IsNotFound_def)
  have c': "NumRequeues (queue ctrlAtCeiling) ''foo/svc1'' = 15" "waiting (queue ctrlAtCeiling) = []"
    by (simp_all add: NumRequeues_def ctrlAtCeiling_def emptyQueue_def)
  from processNextWorkItem_retry_policy [OF a b] processNextWorkItem_retry_policy [OF a' b'] a b c c'
  show ?thesis by auto
qed

text \<open>C4. \<^verbatim>\<open>mapService\<close> takes its node-to-pod entries only from addresses that have a
  target reference of kind Pod with a pod name and a namespace, and a node name.  An
  address that fails a check leaves the transient map as it is; dropping all such
  addresses changes neither the transient map nor the result of \<^verbatim>\<open>mapService\<close>; every entry
  of the transient map comes from a valid address of the object; and an object without
  valid addresses gives an empty transient map and no cache write.\<close>

theorem mapService_ignores_invalid_addresses:
  "(\<not> validAddress address \<longrightarrow> addAddress address nodeToPods = nodeToPods)
   \<and> buildNodeToPods (dropInvalid ep) = buildNodeToPods ep
   \<and> mapService c (dropInvalid ep) = mapService c ep
   \<and> (podFor (buildNodeToPods ep) nodeName namespace = Some podName
        \<longrightarrow> (\<exists>a\<in>set (allAddresses ep). addressOf a nodeName namespace podName))
   \<and> ((\<forall>a\<in>set (allAddresses ep). \<not> validAddress a)
        \<longrightarrow> buildNodeToPods ep = [] \<and> mapService c ep = (None, c))"
proof (intro conjI impI)
  assume "\<not> validAddress address"
  then show "addAddress address nodeToPods = nodeToPods"
    by (rule addAddress_invalid)
next
  show "buildNodeToPods (dropInvalid ep) = buildNodeToPods ep"
    by (rule buildNodeToPods_dropInvalid)
next
  have "ObjName (dropInvalid ep) = ObjName ep"
    by (simp add: dropInvalid_def)
  then show "mapService c (dropInvalid ep) = mapService c ep"
    by (simp add: mapService_def buildNodeToPods_dropInvalid)
next
  assume "podFor (buildNodeToPods ep) nodeName namespace = Some podName"
  then show "\<exists>a\<in>set (allAddresses ep). addressOf a nodeName namespace podName"
    using podFor_fold_origin [of "allAddresses ep" "[]" nodeName namespace podName]
    by (simp add: buildNodeToPods_flat podFor_empty)
next
  assume none: "\<forall>a\<in>set (allAddresses ep). \<not> validAddress a"
  then show "buildNodeToPods ep = []"
    by (simp add: buildNodeToPods_flat fold_addAddress_none)
  then show "mapService c ep = (None, c)"
    by (simp add: mapService_def)
qed

theorem mapService_ignores_invalid_addresses_witness:
  "\<not> validAddress noTarget
   \<and> addAddress noTarget [] = []
   \<and> mapService Map.empty (dropInvalid svc1Mixed) = mapService Map.empty svc1Mixed
   \<and> podFor (buildNodeToPods svc1Mixed) ''node1'' ''foo'' = Some ''pod1_name''
   \<and> allAddresses svc1NoTarget = [noTarget]
   \<and> mapService Map.empty svc1NoTarget = (None, Map.empty)"
proof -
  have v: "\<not> validAddress noTarget"
    by (simp add: validAddress_def noTarget_def)
  have p: "podFor (buildNodeToPods svc1Mixed) ''node1'' ''foo'' = Some ''pod1_name''"
    by (simp add: podFor_def buildNodeToPods_def addSubset_def addAddress_def svc1Mixed_def
        podAddress_def noTarget_def)
  have a: "allAddresses svc1NoTarget = [noTarget]"
    by (simp add: allAddresses_def svc1NoTarget_def)
  show ?thesis
    using mapService_ignores_invalid_addresses
        [of noTarget "[]" svc1Mixed Map.empty "''node1''" "''foo''" "''pod1_name''"]
      mapService_ignores_invalid_addresses [of noTarget "[]" svc1NoTarget Map.empty] v p a
    by simp
qed

text \<open>C5. Within one pass of \<^verbatim>\<open>mapService\<close> over an Endpoints object, when several valid
  addresses have the same node name and the same pod namespace, the transient map holds
  for that node and namespace the pod name of the last of them in iteration order, and no
  other pod name.\<close>

theorem buildNodeToPods_last_write_wins:
  assumes "allAddresses ep = earlier @ address # later"
    and "addressOf address nodeName namespace podName"
    and "\<forall>b\<in>set later. \<not> sameSlot b nodeName namespace"
  shows "podFor (buildNodeToPods ep) nodeName namespace = Some podName
         \<and> (\<forall>pods p'. (nodeName, pods) \<in> set (buildNodeToPods ep) \<and> (namespace, p') \<in> set pods
               \<longrightarrow> p' = podName)"
proof -
  have last: "podFor (buildNodeToPods ep) nodeName namespace = Some podName"
    using assms by (simp add: buildNodeToPods_flat podFor_fold_other addAddress_valid)
  have "p' = podName"
    if "(nodeName, pods) \<in> set (buildNodeToPods ep)" "(namespace, p') \<in> set pods" for pods p'
  proof -
    from that have "podFor (buildNodeToPods ep) nodeName namespace = Some p'"
      using wfMap_podFor [OF wfMap_build, of nodeName ep namespace p'] by blast
    with last show ?thesis by simp
  qed
  with last show ?thesis by blast
qed

theorem buildNodeToPods_last_write_wins_witness:
  "allAddresses svc1TwoPods
     = [podAddress ''node1'' ''foo'' ''pod1_name''] @ podAddress ''node1'' ''foo'' ''pod2_name'' # []
   \<and> addressOf (podAddress ''node1'' ''foo'' ''pod1_name'') ''node1'' ''foo'' ''pod1_name''
   \<and> addressOf (podAddress ''node1'' ''foo'' ''pod2_name'') ''node1'' ''foo'' ''pod2_name''
   \<and> podFor (buildNodeToPods svc1TwoPods) ''node1'' ''foo'' = Some ''pod2_name''"
proof -
  have a: "allAddresses svc1TwoPods
     = [podAddress ''node1'' ''foo'' ''pod1_name''] @ podAddress ''node1'' ''foo'' ''pod2_name'' # []"
    by (simp add: allAddresses_def svc1TwoPods_def)
  have b: "addressOf (podAddress ''node1'' ''foo'' ''pod2_name'') ''node1'' ''foo'' ''pod2_name''"
    by (simp add: addressOf_def validAddress_def podAddress_def)
  have c: "addressOf (podAddress ''node1'' ''foo'' ''pod1_name'') ''node1'' ''foo'' ''pod1_name''"
    by (simp add: addressOf_def validAddress_def podAddress_def)
  have d: "\<forall>b\<in>set []. \<not> sameSlot b ''node1'' ''foo''"
    by simp
  from buildNodeToPods_last_write_wins [OF a b d] a b c show ?thesis by simp
qed

text \<open>C6. When no value is cached under the node's cache key, or the cached bundle has
  no entry for the pod, \<^verbatim>\<open>GetPodMetadataNames\<close> returns no data and a nil error.\<close>

theorem GetPodMetadataNames_absent_is_no_error:
  assumes "Cache_Get c (BuildAgentKey metadataMapperCachePrefix nodeName) = None
           \<or> (\<exists>b. Cache_Get c (BuildAgentKey metadataMapperCachePrefix nodeName) = Some (BundleValue b)
                  \<and> \<not> hasEntry b ns podName)"
  shows "fst (GetPodMetadataNames c nodeName ns podName) = ([], None)"
  using assms
  by (auto simp: GetPodMetadataNames_def Let_def ServicesForPod_def ServicesMapper_Get_def hasEntry_def
      split: option.splits)

theorem GetPodMetadataNames_absent_is_no_error_witness:
  "Cache_Get Map.empty (BuildAgentKey metadataMapperCachePrefix ''node1'') = None
   \<and> fst (GetPodMetadataNames Map.empty ''node1'' ''foo'' ''pod1_name'') = ([], None)
   \<and> Cache_Get cacheNode2 (BuildAgentKey metadataMapperCachePrefix ''node2'') = Some (BundleValue bundleNode2)
   \<and> \<not> hasEntry bundleNode2 ''foo'' ''pod3_name''
   \<and> fst (GetPodMetadataNames cacheNode2 ''node2'' ''foo'' ''pod3_name'') = ([], None)"
proof -
  have a: "Cache_Get Map.empty (BuildAgentKey metadataMapperCachePrefix ''node1'') = None"
    by (simp add: Cache_Get_def)
  have b: "Cache_Get cacheNode2 (BuildAgentKey metadataMapperCachePrefix ''node2'') = Some (BundleValue bundleNode2)"
    by (simp add: cacheNode2_def bundleNode2_def svc1OnNode2_def eval_defs)
  have c: "\<not> hasEntry bundleNode2 ''foo'' ''pod3_name''"
    by (simp add: hasEntry_def bundleNode2_def)
  show ?thesis
    using GetPodMetadataNames_absent_is_no_error [of Map.empty "''node1''" "''foo''" "''pod1_name''"]
      GetPodMetadataNames_absent_is_no_error [of cacheNode2 "''node2''" "''foo''" "''pod3_name''"] a b c
    by simp
qed

text \<open>C7. When the value cached under the node's cache key is not a bundle,
  \<^verbatim>\<open>GetPodMetadataNames\<close> returns the error "invalid cache format" for that key; the same
  query against the cache without the entry returns no data and no error, a different
  result.\<close>

theorem GetPodMetadataNames_invalid_cache_format:
  assumes "Cache_Get c (BuildAgentKey metadataMapperCachePrefix nodeName) = Some OtherValue"
  shows "fst (GetPodMetadataNames c nodeName ns podName)
           = ([], Some (Err (''invalid cache format for the cacheKey: ''
                             @ BuildAgentKey metadataMapperCachePrefix nodeName)))
         \<and> fst (GetPodMetadataNames (c(BuildAgentKey metadataMapperCachePrefix nodeName := None)) nodeName ns podName)
           = ([], None)
         \<and> fst (GetPodMetadataNames c nodeName ns podName)
           \<noteq> fst (GetPodMetadataNames (c(BuildAgentKey metadataMapperCachePrefix nodeName := None)) nodeName ns podName)"
  using assms by (simp add: GetPodMetadataNames_def Let_def Cache_Get_def)

theorem GetPodMetadataNames_invalid_cache_format_witness:
  "Cache_Get corruptCache (BuildAgentKey metadataMapperCachePrefix ''node1'') = Some OtherValue
   \<and> fst (GetPodMetadataNames corruptCache ''node1'' ''foo'' ''pod1_name'')
       = ([], Some (Err ''invalid cache format for the cacheKey: KubernetesMetadataMapping/node1''))"
proof -
  have a: "Cache_Get corruptCache (BuildAgentKey metadataMapperCachePrefix ''node1'') = Some OtherValue"
    by (simp add: corruptCache_def Cache_Get_def)
  from GetPodMetadataNames_invalid_cache_format [OF a, of "''foo''" "''pod1_name''"] a show ?thesis
    by (simp add: BuildAgentKey_def metadataMapperCachePrefix_def)
qed

text \<open>C8. A delete notification whose payload is neither an Endpoints object nor a
  tombstone holding one enqueues nothing, and a tombstone holding an Endpoints object is
  meant to enqueue that object's key.  \<^verbatim>\<open>deleteEndpoints\<close> hands the tombstone itself to
  \<^verbatim>\<open>enqueue\<close>, whose key function finds no object metadata on it: the controller is left as
  it was, nothing is enqueued, while the same Endpoints object delivered without the
  tombstone does enqueue its key.\<close>

theorem deleteEndpoints_tombstone_not_enqueued:
  "deleteEndpoints m (OtherObj meta) = m
   \<and> deleteEndpoints m (DeletedFinalStateUnknown k (OtherObj meta)) = m
   \<and> deleteEndpoints m (DeletedFinalStateUnknown k (EndpointsObj endpoints)) = m
   \<and> deleteEndpoints m (EndpointsObj endpoints)
       = m\<lparr>queue := Add (queue m) (metaKey (ObjNamespace endpoints) (ObjName endpoints))\<rparr>
   \<and> queue (deleteEndpoints ctrlTwoNodes (DeletedFinalStateUnknown ''foo/svc1'' (EndpointsObj svc1OnNode2)))
       = emptyQueue
   \<and> items (queue (deleteEndpoints ctrlTwoNodes (EndpointsObj svc1OnNode2))) = [''foo/svc1'']"
  by (simp add: enqueue_def ctrlTwoNodes_def emptyQueue_def svc1OnNode2_def Add_def metaKey_def)

text \<open>C9, as stated: \<^verbatim>\<open>reconcileKey\<close> returns success unless the listing of nodes fails.  It
  fails when the store answers the lookup with an error other than not-found, although
  the nodes can be listed.\<close>

theorem reconcileKey_lookup_error_is_returned:
  "nodeLister ctrlStoreFailure = Inr [''node1'', ''node2'']
   \<and> fst (reconcileKey ctrlStoreFailure Map.empty ''foo/svc1'') = Some (Err ''store failure'')"
  by (simp add: ctrlStoreFailure_def reconcileKey_def SplitMetaNamespaceKey_def IsNotFound_def)

text \<open>C9, amended: \<^verbatim>\<open>reconcileKey\<close> returns an error exactly when the key cannot be split,
  or the lookup of the Endpoints object fails with an error other than not-found, or the
  lookup answers not-found and the listing of nodes in the cleanup fails.  A not-found
  answer is routed to \<^verbatim>\<open>mapDeletedService\<close>, a found object to \<^verbatim>\<open>mapService\<close>, which always
  returns success.\<close>

theorem reconcileKey_error_sources:
  "fst (mapService c endpoints) = None
   \<and> (SplitMetaNamespaceKey key = Inr (namespace, name) \<and> endpointsLister m namespace name = Inl NotFound
        \<longrightarrow> reconcileKey m c key = mapDeletedService m c namespace name)
   \<and> (SplitMetaNamespaceKey key = Inr (namespace, name) \<and> endpointsLister m namespace name = Inr endpoints
        \<longrightarrow> reconcileKey m c key = mapService c endpoints)
   \<and> (fst (reconcileKey m c key) \<noteq> None \<longleftrightarrow>
        (\<exists>e. SplitMetaNamespaceKey key = Inl e)
        \<or> (\<exists>ns n e. SplitMetaNamespaceKey key = Inr (ns, n) \<and> endpointsLister m ns n = Inl e
                    \<and> (e \<noteq> NotFound \<or> (\<exists>e'. nodeLister m = Inl e'))))"
proof (intro conjI impI)
  show "fst (mapService c endpoints) = None" by (rule mapService_ok)
next
  assume "SplitMetaNamespaceKey key = Inr (namespace, name) \<and> endpointsLister m namespace name = Inl NotFound"
  then show "reconcileKey m c key = mapDeletedService m c namespace name"
    by (simp add: reconcileKey_def IsNotFound_def)
next
  assume "SplitMetaNamespaceKey key = Inr (namespace, name) \<and> endpointsLister m namespace name = Inr endpoints"
  then show "reconcileKey m c key = mapService c endpoints"
    by (simp add: reconcileKey_def)
next
  show "fst (reconcileKey m c key) \<noteq> None \<longleftrightarrow>
        (\<exists>e. SplitMetaNamespaceKey key = Inl e)
        \<or> (\<exists>ns n e. SplitMetaNamespaceKey key = Inr (ns, n) \<and> endpointsLister m ns n = Inl e
                    \<and> (e \<noteq> NotFound \<or> (\<exists>e'. nodeLister m = Inl e')))"
  proof (cases "SplitMetaNamespaceKey key")
    case (Inl e)
    then show ?thesis by (simp add: reconcileKey_def)
  next
    case (Inr p)
    obtain ns n where p: "p = (ns, n)" by (cases p)
    show ?thesis
    proof (cases "endpointsLister m ns n")
      case (Inl e)
      then show ?thesis
        using Inr p
        by (cases "nodeLister m")
           (auto simp: reconcileKey_def IsNotFound_def mapDeletedService_def)
    next
      case (Inr ep)
      then show ?thesis
        using \<open>SplitMetaNamespaceKey key = Inr p\<close> p
        by (simp add: reconcileKey_def mapService_ok)
    qed
  qed
qed

theorem reconcileKey_error_sources_witness:
  "SplitMetaNamespaceKey ''foo/svc1'' = Inr (''foo'', ''svc1'')
   \<and> endpointsLister ctrlTwoNodes ''foo'' ''svc1'' = Inl NotFound
   \<and> reconcileKey ctrlTwoNodes cacheNode2 ''foo/svc1'' = mapDeletedService ctrlTwoNodes cacheNode2 ''foo'' ''svc1''
   \<and> fst (reconcileKey ctrlTwoNodes cacheNode2 ''foo/svc1'') = None
   \<and> nodeLister ctrlListFailure = Inl (Err ''list failure'')
   \<and> fst (reconcileKey ctrlListFailure cacheNode2 ''foo/svc1'') \<noteq> None"
proof -
  have a: "SplitMetaNamespaceKey ''foo/svc1'' = Inr (''foo'', ''svc1'')"
    by (simp add: SplitMetaNamespaceKey_def)
  have b: "endpointsLister ctrlTwoNodes ''foo'' ''svc1'' = Inl NotFound"
    "endpointsLister ctrlListFailure ''foo'' ''svc1'' = Inl NotFound"
    "nodeLister ctrlListFailure = Inl (Err ''list failure'')"
    "nodeLister ctrlTwoNodes = Inr [''node1'', ''node2'']"
    by (simp_all add: ctrlTwoNodes_def ctrlListFailure_def)
  show ?thesis
    using reconcileKey_error_sources [of cacheNode2 svc1OnNode2 "''foo/svc1''" "''foo''" "''svc1''" ctrlTwoNodes]
      reconcileKey_error_sources [of cacheNode2 svc1OnNode2 "''foo/svc1''" "''foo''" "''svc1''" ctrlListFailure] a b
    by auto
qed

text \<open>C10. \<^verbatim>\<open>GetPodMetadataNames\<close> leaves the cache, and with it every stored bundle, as it
  found it, whatever the node, namespace and pod name.\<close>

theorem GetPodMetadataNames_leaves_cache:
  "snd (GetPodMetadataNames c nodeName ns podName) = c"
  by (simp add: GetPodMetadataNames_def Let_def split: option.split cacheValue.split prod.split)

end
